theory Spec2Isabelle
  imports Main "HOL-Library.Word"
begin

section \<open>JavaScript strings, byte buffers and values\<close>

text \<open>
  A JavaScript string is a sequence of UTF-16 code units; a \<open>Buffer\<close> is a sequence of
  bytes. ASCII literals of the source are written with \<open>ascii\<close>.
\<close>

type_synonym jsstring = "16 word list"
type_synonym bytes = "8 word list"

definition ascii :: "string \<Rightarrow> jsstring" where
  "ascii s = map of_char s"

abbreviation LF :: "16 word" where
  "LF \<equiv> 0x0A"

text \<open>
  \<open>Buffer.from(s, "utf-8")\<close>: a surrogate pair is one scalar value of four bytes, a lone
  surrogate is encoded as U+FFFD (\<open>EF BF BD\<close>), every other code unit is its own scalar
  value.
\<close>

definition byte :: "nat \<Rightarrow> 8 word" where
  "byte k = of_nat k"

definition utf8_scalar :: "nat \<Rightarrow> bytes" where
  "utf8_scalar n =
     (if n < 0x80 then [byte n]
      else if n < 0x800 then [byte (0xC0 + n div 0x40), byte (0x80 + n mod 0x40)]
      else if n < 0x10000 then
        [byte (0xE0 + n div 0x1000), byte (0x80 + n div 0x40 mod 0x40),
         byte (0x80 + n mod 0x40)]
      else
        [byte (0xF0 + n div 0x40000), byte (0x80 + n div 0x1000 mod 0x40),
         byte (0x80 + n div 0x40 mod 0x40), byte (0x80 + n mod 0x40)])"

definition high_surrogate :: "16 word \<Rightarrow> bool" where
  "high_surrogate c \<longleftrightarrow> 0xD800 \<le> c \<and> c \<le> 0xDBFF"

definition low_surrogate :: "16 word \<Rightarrow> bool" where
  "low_surrogate c \<longleftrightarrow> 0xDC00 \<le> c \<and> c \<le> 0xDFFF"

definition pair_scalar :: "16 word \<Rightarrow> 16 word \<Rightarrow> nat" where
  "pair_scalar c d = 0x10000 + (unat c - 0xD800) * 0x400 + (unat d - 0xDC00)"

definition utf8_unit :: "16 word \<Rightarrow> bytes" where
  "utf8_unit c =
     (if high_surrogate c \<or> low_surrogate c then [0xEF, 0xBF, 0xBD]
      else utf8_scalar (unat c))"

fun utf8 :: "jsstring \<Rightarrow> bytes" where
  "utf8 [] = []"
| "utf8 [c] = utf8_unit c"
| "utf8 (c # d # ds) =
     (if high_surrogate c \<and> low_surrogate d then utf8_scalar (pair_scalar c d) @ utf8 ds
      else utf8_unit c @ utf8 (d # ds))"

text \<open>
  The values the signing code handles: a string, or \<open>undefined\<close> for an absent field.
  \<open>ToString\<close> is the conversion a template literal applies to \<open>${v}\<close>; \<open>falsy\<close> is
  the test \<open>!v\<close>.
\<close>

datatype jsval = Undefined | Str jsstring

fun ToString :: "jsval \<Rightarrow> jsstring" where
  "ToString Undefined = ascii ''undefined''"
| "ToString (Str s) = s"

fun falsy :: "jsval \<Rightarrow> bool" where
  "falsy Undefined = True"
| "falsy (Str s) = (s = [])"

text \<open>
  \<open>String(n)\<close> for an integral number below \<open>10^21\<close> in magnitude: the decimal digits,
  with a minus sign for a negative number and no leading zero.
\<close>

fun dec_digits :: "nat \<Rightarrow> jsstring" where
  "dec_digits n =
     (if n < 10 then [0x30 + of_nat n]
      else dec_digits (n div 10) @ [0x30 + of_nat (n mod 10)])"

definition js_String :: "int \<Rightarrow> jsstring" where
  "js_String i = (if i < 0 then ascii ''-'' @ dec_digits (nat (- i)) else dec_digits (nat i))"

section \<open>Errors\<close>

text \<open>
  What the adapter throws: the \<open>TypeError\<close> and \<open>ReferenceError\<close> of the language, the
  \<open>Error\<close>s of the constructor (a missing option), of \<open>resolveEsignModule\<close> (the package
  does not load), of \<open>loadIdentity\<close> (no credentials for the agent id) and of a failed
  HTTP exchange (method, path and detail), and \<open>Thrown\<close> for an exception that comes out
  of a collaborator. \<open>MalformedSigningInput\<close> is the error the specification names for a
  rejected signing input; no statement of the adapter raises it.
\<close>

datatype error =
    TypeError
  | ReferenceError string
  | MalformedSigningInput
  | MissingClientOptions
  | ModuleLoadError
  | CredentialsNotFound jsstring
  | HttpError jsstring jsstring jsstring
  | Thrown nat

section \<open>The canonical message builder\<close>

text \<open>
  The six named parameters of the source are the arguments, in the order of the
  destructuring pattern. \<open>up\<close> stands for \<open>String.prototype.toUpperCase\<close>, whose case
  tables are part of the language runtime. Calling \<open>toUpperCase\<close> on an absent method
  throws; an absent field elsewhere is interpolated as the text \<open>undefined\<close>.
\<close>

definition buildMb2Message ::
  "(jsstring \<Rightarrow> jsstring) \<Rightarrow> jsval \<Rightarrow> jsval \<Rightarrow> jsval \<Rightarrow> jsval \<Rightarrow> jsval \<Rightarrow> jsval
     \<Rightarrow> error + bytes" where
  "buildMb2Message up ts nonce agentName method pathOnly bodySha256 =
     (case method of
        Undefined \<Rightarrow> Inl TypeError
      | Str m \<Rightarrow>
          Inr (utf8 (ascii ''MB2'' @ [LF] @ ToString ts @ [LF] @ ToString nonce @ [LF]
                     @ ToString agentName @ [LF] @ up m @ [LF] @ ToString pathOnly @ [LF]
                     @ ToString bodySha256 @ [LF])))"

text \<open>The action of \<open>toUpperCase\<close> on ASCII text, for concrete instances.\<close>

definition ascii_toUpperCase :: "jsstring \<Rightarrow> jsstring" where
  "ascii_toUpperCase s = map (\<lambda>c. if 0x61 \<le> c \<and> c \<le> 0x7A then c - 0x20 else c) s"

section \<open>External collaborators\<close>

text \<open>
  The adapter calls into Node and into the \<open>esign-agent-trust\<close> package, whose code is not
  part of the repository. Each such call is a field of \<open>platform\<close>; a call that can throw
  or reject returns an \<open>error\<close> on the left. \<open>'j\<close> is the type of request body objects,
  \<open>'v\<close> the type of parsed JSON responses.

  \<^item> \<open>toUpperCase\<close> is \<open>String.prototype.toUpperCase\<close>;
  \<^item> \<open>sha256_digest\<close> and \<open>base64\<close> are \<open>crypto.createHash("sha256")\<close> and the
    \<open>"base64"\<close> digest encoding;
  \<^item> \<open>JSON_stringify\<close> gives the text of \<open>JSON.stringify(bodyObject)\<close>, or the error
    raised by it or by \<open>Buffer.from\<close> when the result is not a string;
  \<^item> \<open>JSON_parse\<close> is \<open>None\<close> when \<open>JSON.parse\<close> throws or yields \<open>null\<close>;
    \<open>json_detail\<close> is the \<open>detail\<close> property of a parsed response, when truthy;
  \<^item> \<open>require_esign\<close> tells whether \<open>require\<close> of the package succeeds and
    \<open>sdk_construct\<close> is the exception, if any, of \<open>new EsignAgentTrust(sdkConfig)\<close>;
  \<^item> \<open>sdk_load\<close> is the truth value of what \<open>sdk.load(agentId)\<close> resolves to, and
    \<open>sdk_sign\<close> the \<open>signature\<close> property of the result of \<open>sdk.sign(msg)\<close>, which
    goes into a header as its string form;
  \<^item> \<open>fetch\<close> is the HTTP exchange.
\<close>

record http_request =
  req_url :: jsstring
  req_method :: jsstring
  req_headers :: "(jsstring \<times> jsstring) list"
  req_body :: "jsstring option"

record http_response =
  resp_ok :: bool
  resp_status :: nat
  resp_text :: "error + jsstring"

record ('j, 'v) platform =
  toUpperCase :: "jsstring \<Rightarrow> jsstring"
  sha256_digest :: "bytes \<Rightarrow> bytes"
  base64 :: "bytes \<Rightarrow> jsstring"
  JSON_stringify :: "'j \<Rightarrow> error + jsstring"
  JSON_parse :: "jsstring \<Rightarrow> 'v option"
  json_detail :: "'v \<Rightarrow> jsstring option"
  require_esign :: bool
  sdk_construct :: "error option"
  sdk_load :: "jsstring \<Rightarrow> error + bool"
  sdk_sign :: "bytes \<Rightarrow> error + jsval"
  fetch :: "http_request \<Rightarrow> error + http_response"

text \<open>
  The part of the environment that a call reads and changes: \<open>now_ms\<close> is what
  \<open>Date.now()\<close> returns, \<open>uuid_source\<close> the successive results of
  \<open>crypto.randomUUID()\<close> and \<open>uuid_count\<close> the number of them drawn so far.
\<close>

record world =
  now_ms :: int
  uuid_source :: "nat \<Rightarrow> jsstring"
  uuid_count :: nat

text \<open>The calls that leave the process, in the order they are made.\<close>

datatype event = SdkLoad jsstring | SdkSign bytes | Fetch http_request

definition wire_body :: "http_request \<Rightarrow> bytes" where
  \<comment> \<open>\<open>fetch\<close> sends a string body as its UTF-8 bytes, and nothing for \<open>undefined\<close>\<close>
  "wire_body r = (case req_body r of None \<Rightarrow> [] | Some s \<Rightarrow> utf8 s)"

definition header :: "http_request \<Rightarrow> string \<Rightarrow> jsstring option" where
  "header r name = map_of (req_headers r) (ascii name)"

section \<open>The adapter\<close>

definition resolveEsignModule :: "('j, 'v) platform \<Rightarrow> error + unit" where
  "resolveEsignModule P = (if require_esign P then Inr () else Inl ModuleLoadError)"

definition sha256Base64 :: "('j, 'v) platform \<Rightarrow> bytes \<Rightarrow> jsstring" where
  "sha256Base64 P buffer = base64 P (sha256_digest P buffer)"

record client =
  this_baseUrl :: jsstring
  this_apiKey :: jsstring
  this_agentId :: jsstring
  this_agentName :: jsstring
  this_signatureAlg :: jsstring
  this_loaded :: bool

definition strip_trailing_slashes :: "jsstring \<Rightarrow> jsstring" where
  \<comment> \<open>\<open>s.replace(/\/+$/, "")\<close>\<close>
  "strip_trailing_slashes s = rev (dropWhile (\<lambda>c. c = 0x2F) (rev s))"

definition new_TrustbookEsignClient ::
  "('j, 'v) platform \<Rightarrow> jsval \<Rightarrow> jsval \<Rightarrow> jsval \<Rightarrow> jsval \<Rightarrow> jsval \<Rightarrow> error + client" where
  "new_TrustbookEsignClient P baseUrl apiKey agentId agentName signatureAlg =
     (if falsy baseUrl \<or> falsy apiKey \<or> falsy agentId \<or> falsy agentName
      then Inl MissingClientOptions
      else
        (case resolveEsignModule P of
           Inl e \<Rightarrow> Inl e
         | Inr _ \<Rightarrow>
             (case sdk_construct P of
                Some e \<Rightarrow> Inl e
              | None \<Rightarrow>
                  Inr \<lparr>this_baseUrl = strip_trailing_slashes (ToString baseUrl),
                       this_apiKey = ToString apiKey,
                       this_agentId = ToString agentId,
                       this_agentName = ToString agentName,
                       this_signatureAlg =
                         (case signatureAlg of
                            Undefined \<Rightarrow> ascii ''rsa-v1_5-sha256''
                          | Str s \<Rightarrow> s),
                       this_loaded = False\<rparr>)))"

definition loadIdentity ::
  "('j, 'v) platform \<Rightarrow> client \<Rightarrow> (error + unit) \<times> client \<times> event list" where
  "loadIdentity P c =
     (case sdk_load P (this_agentId c) of
        Inl e \<Rightarrow> (Inl e, c, [SdkLoad (this_agentId c)])
      | Inr ok \<Rightarrow>
          if \<not> ok then (Inl (CredentialsNotFound (this_agentId c)), c, [SdkLoad (this_agentId c)])
          else (Inr (), c\<lparr>this_loaded := True\<rparr>, [SdkLoad (this_agentId c)]))"

text \<open>
  What \<open>request\<close> and \<open>rawApiRequest\<close> do with a response: read the text, parse it
  (\<open>null\<close> when it is empty or not JSON), and throw unless the status is a success.
\<close>

definition read_response ::
  "('j, 'v) platform \<Rightarrow> jsstring \<Rightarrow> jsstring \<Rightarrow> http_response \<Rightarrow> error + 'v option" where
  "read_response P method apiPath response =
     (case resp_text response of
        Inl e \<Rightarrow> Inl e
      | Inr text \<Rightarrow>
          (let json = (if text = [] then None else JSON_parse P text) in
             if \<not> resp_ok response then
               Inl (HttpError method apiPath
                      (case (case json of None \<Rightarrow> None | Some v \<Rightarrow> json_detail P v) of
                         Some d \<Rightarrow> d
                       | None \<Rightarrow>
                           if text \<noteq> [] then text
                           else ascii ''HTTP '' @ js_String (int (resp_status response))))
             else Inr json))"

text \<open>
  \<open>request\<close> returns its result (the parsed response, \<open>None\<close> for \<open>null\<close>, or the error
  thrown), the client and the world as the call leaves them, and the events of the call.
  \<open>Math.floor(Date.now() / 1000)\<close> is the integer division of the clock reading, which
  rounds down.
\<close>

definition request ::
  "('j, 'v) platform \<Rightarrow> client \<Rightarrow> world \<Rightarrow> jsstring \<Rightarrow> jsstring \<Rightarrow> 'j option
     \<Rightarrow> (error + 'v option) \<times> client \<times> world \<times> event list" where
  "request P c w method apiPath bodyObject =
     (case (if this_loaded c then (Inr (), c, []) else loadIdentity P c) of
        (Inl e, c1, ev1) \<Rightarrow> (Inl e, c1, w, ev1)
      | (Inr _, c1, ev1) \<Rightarrow>
          (case (case bodyObject of None \<Rightarrow> Inr [] | Some b \<Rightarrow> JSON_stringify P b) of
             Inl e \<Rightarrow> (Inl e, c1, w, ev1)
           | Inr bodyText \<Rightarrow>
               (let bodyBytes = utf8 bodyText;
                    ts = js_String (now_ms w div 1000);
                    nonce = uuid_source w (uuid_count w);
                    w1 = w\<lparr>uuid_count := Suc (uuid_count w)\<rparr>;
                    bodySha256 = sha256Base64 P bodyBytes
                in
                  (case buildMb2Message (toUpperCase P) (Str ts) (Str nonce)
                          (Str (this_agentName c1)) (Str method) (Str apiPath)
                          (Str bodySha256) of
                     Inl e \<Rightarrow> (Inl e, c1, w1, ev1)
                   | Inr msg \<Rightarrow>
                       (case sdk_sign P msg of
                          Inl e \<Rightarrow> (Inl e, c1, w1, ev1 @ [SdkSign msg])
                        | Inr signature \<Rightarrow>
                            (let headers =
                                   [(ascii ''Authorization'', ascii ''Bearer '' @ this_apiKey c1),
                                    (ascii ''X-MB-Signature'', ToString signature),
                                    (ascii ''X-MB-Signature-Alg'', this_signatureAlg c1),
                                    (ascii ''X-MB-Signature-Ts'', ts),
                                    (ascii ''X-MB-Signature-Nonce'', nonce)]
                                   @ (if bodyObject \<noteq> None
                                      then [(ascii ''Content-Type'', ascii ''application/json'')]
                                      else []);
                                 req = \<lparr>req_url = this_baseUrl c1 @ apiPath,
                                        req_method = method,
                                        req_headers = headers,
                                        req_body =
                                          (if bodyObject = None then None else Some bodyText)\<rparr>;
                                 ev = ev1 @ [SdkSign msg, Fetch req]
                             in
                               (case fetch P req of
                                  Inl e \<Rightarrow> (Inl e, c1, w1, ev)
                                | Inr response \<Rightarrow>
                                    (read_response P method apiPath response, c1, w1, ev))))))))"

text \<open>
  The client states that the class itself can produce: the constructor's result, and
  what \<open>loadIdentity\<close> and \<open>request\<close> leave behind.
\<close>

inductive constructed :: "('j, 'v) platform \<Rightarrow> client \<Rightarrow> bool" for P :: "('j, 'v) platform" where
  constructed_new:
    "new_TrustbookEsignClient P baseUrl apiKey agentId agentName signatureAlg = Inr c
       \<Longrightarrow> constructed P c"
| constructed_load:
    "constructed P c \<Longrightarrow> loadIdentity P c = (r, c', ev) \<Longrightarrow> constructed P c'"
| constructed_request:
    "constructed P c \<Longrightarrow> request P c w method apiPath bodyObject = (r, c', w', ev)
       \<Longrightarrow> constructed P c'"

section \<open>Loading the module\<close>

text \<open>
  What evaluating the file does, from its first statement to its last. The names bound
  at the top level of the file are the two \<open>require\<close>d modules and the declared functions
  and class, next to the five names every CommonJS module receives; \<open>globals\<close> are the
  names the global object provides. An identifier bound nowhere raises a
  \<open>ReferenceError\<close> where it is evaluated.

  When the file is the main module, \<open>runCli()\<close> is called first and runs up to its first
  \<open>await\<close>: with no command or a help flag it prints the usage and ends the process
  with \<open>process.exit(0)\<close>; with any other command it returns a promise (an exception
  inside it rejects the promise) and evaluation goes on to \<open>module.exports\<close>. Calls into
  \<open>esign-agent-trust\<close> made on the way are taken to return or throw.
\<close>

definition module_bindings :: "string list" where
  "module_bindings =
     [''exports'', ''require'', ''module'', ''__filename'', ''__dirname'',
      ''crypto'', ''path'', ''resolveEsignModule'', ''sha256Base64'', ''buildMb2Message'',
      ''generateAndStoreKeyPairWithEsign'', ''TrustbookEsignClient'', ''rawApiRequest'',
      ''runCli'']"

definition resolve_identifier :: "string set \<Rightarrow> string \<Rightarrow> error + string" where
  "resolve_identifier globals x =
     (if x \<in> set module_bindings \<or> x \<in> globals then Inr x else Inl (ReferenceError x))"

fun object_literal :: "string set \<Rightarrow> string list \<Rightarrow> error + string list" where
  "object_literal globals [] = Inr []"
| "object_literal globals (x # xs) =
     (case resolve_identifier globals x of
        Inl e \<Rightarrow> Inl e
      | Inr v \<Rightarrow>
          (case object_literal globals xs of
             Inl e \<Rightarrow> Inl e
           | Inr vs \<Rightarrow> Inr (v # vs)))"

definition runCli_exits :: "jsval \<Rightarrow> nat option" where
  \<comment> \<open>the exit status, when \<open>runCli\<close> ends the process before its first \<open>await\<close>\<close>
  "runCli_exits argv2 =
     (let cmd = (if falsy argv2 then [] else ToString argv2) in
        if cmd = [] \<or> cmd = ascii ''help'' \<or> cmd = ascii ''--help'' \<or> cmd = ascii ''-h''
        then Some 0 else None)"

datatype module_outcome = Exports "string list" | Throws error | Exits nat

definition evaluate_module :: "string set \<Rightarrow> bool \<Rightarrow> jsval \<Rightarrow> module_outcome" where
  "evaluate_module globals is_main argv2 =
     (case (if is_main then runCli_exits argv2 else None) of
        Some status \<Rightarrow> Exits status
      | None \<Rightarrow>
          (case object_literal globals
                  [''TrustbookEsignClient'', ''buildMb1Message'', ''sha256Base64''] of
             Inl e \<Rightarrow> Throws e
           | Inr names \<Rightarrow> Exports names))"

section \<open>The verifier\<close>


text \<open>
  Modelled from the spec: the server-side verifier, which is not among the source files.
  It follows section 4.3 of the specification: the states are decided in the order
  unsigned, no certificate, certificate not yet valid, certificate expired, invalid,
  verified. The digest of the stored body is recomputed as the base64 form of its
  SHA-256 and compared with the envelope's; the canonical message is recomputed in the
  form of section 4.1 from the stored action's method, path and body and the envelope's
  time stamp, nonce and agent name; the signature is checked under the envelope's
  algorithm against the public key of the certificate. The hash \<open>sha\<close>, the encoding
  \<open>b64\<close>, the signature check \<open>sig_ok\<close> and the freshness test \<open>replayed\<close> (time stamp
  outside the window, or nonce already consumed), which the specification leaves to
  configuration, are parameters.
\<close>

datatype status = Unsigned | NoCert | CertNotYetValid | CertExpired | Invalid | Verified







section \<open>Well-formed strings\<close>

text \<open>
  \<open>String.prototype.isWellFormed\<close>: no surrogate without its partner. \<open>scalars\<close> reads a
  string as the Unicode scalar values the encoder sees.
\<close>

fun well_formed :: "jsstring \<Rightarrow> bool" where
  "well_formed [] = True"
| "well_formed [c] = (\<not> high_surrogate c \<and> \<not> low_surrogate c)"
| "well_formed (c # d # ds) =
     (if high_surrogate c then low_surrogate d \<and> well_formed ds
      else \<not> low_surrogate c \<and> well_formed (d # ds))"

fun scalars :: "jsstring \<Rightarrow> nat list" where
  "scalars [] = []"
| "scalars [c] = [unat c]"
| "scalars (c # d # ds) =
     (if high_surrogate c \<and> low_surrogate d then pair_scalar c d # scalars ds
      else unat c # scalars (d # ds))"

text \<open>
  The scalar value at the head of a sequence of byte values, read back from its UTF-8
  form: the inverse of \<open>utf8_scalar\<close> used to show that the encoding can be decoded.
\<close>

definition first_scalar :: "nat list \<Rightarrow> nat" where
  "first_scalar bs =
     (if bs ! 0 < 0x80 then bs ! 0
      else if bs ! 0 < 0xE0 then (bs ! 0 - 0xC0) * 0x40 + (bs ! 1 - 0x80)
      else if bs ! 0 < 0xF0 then
        (bs ! 0 - 0xE0) * 0x1000 + (bs ! 1 - 0x80) * 0x40 + (bs ! 2 - 0x80)
      else (bs ! 0 - 0xF0) * 0x40000 + (bs ! 1 - 0x80) * 0x1000 + (bs ! 2 - 0x80) * 0x40
           + (bs ! 3 - 0x80))"

section \<open>A concrete instance\<close>

text \<open>
  Small stand-ins for the collaborators, to run the definitions on concrete inputs: body
  objects are their own JSON text, the digest is the identity, the key custody knows the
  identity \<open>agent-1\<close> and signs a message by prefixing it with \<open>sig:\<close>, and the server
  answers every request with \<open>{}\<close>.
\<close>

definition demo_platform :: "(jsstring, jsstring) platform" where
  "demo_platform =
     \<lparr>toUpperCase = ascii_toUpperCase,
      sha256_digest = (\<lambda>b. b),
      base64 = map ucast,
      JSON_stringify = Inr,
      JSON_parse = Some,
      json_detail = (\<lambda>v. None),
      require_esign = True,
      sdk_construct = None,
      sdk_load = (\<lambda>agentId. Inr (agentId = ascii ''agent-1'')),
      sdk_sign = (\<lambda>msg. Inr (Str (ascii ''sig:'' @ map ucast msg))),
      fetch = (\<lambda>r. Inr \<lparr>resp_ok = True, resp_status = 201, resp_text = Inr (ascii ''{}'')\<rparr>)\<rparr>"

definition demo_client :: client where
  "demo_client =
     \<lparr>this_baseUrl = ascii ''http://localhost:3456'', this_apiKey = ascii ''mb_k'',
      this_agentId = ascii ''agent-1'', this_agentName = ascii ''A'',
      this_signatureAlg = ascii ''rsa-v1_5-sha256'', this_loaded = False\<rparr>"

definition demo_world :: world where
  "demo_world =
     \<lparr>now_ms = 1700000000123,
      uuid_source = (\<lambda>k. ascii ''uuid-'' @ js_String (int k)),
      uuid_count = 0\<rparr>"

definition demo_msg :: bytes where
  "demo_msg =
     utf8 (ascii ''MB2\<newline>1700000000\<newline>uuid-0\<newline>A\<newline>POST\<newline>/p\<newline>{}\<newline>'')"

definition demo_req :: http_request where
  "demo_req =
     \<lparr>req_url = ascii ''http://localhost:3456/p'',
      req_method = ascii ''post'',
      req_headers =
        [(ascii ''Authorization'', ascii ''Bearer mb_k''),
         (ascii ''X-MB-Signature'', ascii ''sig:'' @ map ucast demo_msg),
         (ascii ''X-MB-Signature-Alg'', ascii ''rsa-v1_5-sha256''),
         (ascii ''X-MB-Signature-Ts'', ascii ''1700000000''),
         (ascii ''X-MB-Signature-Nonce'', ascii ''uuid-0''),
         (ascii ''Content-Type'', ascii ''application/json'')],
      req_body = Some (ascii ''{}'')\<rparr>"

definition demo_events :: "event list" where
  "demo_events = [SdkLoad (ascii ''agent-1''), SdkSign demo_msg, Fetch demo_req]"



section \<open>UTF-8 and the line separator\<close>

lemma unat_byte: "k < 256 \<Longrightarrow> unat (byte k) = k"
  by (simp add: byte_def unat_of_nat)

lemma byte_neq_LF: "128 \<le> k \<Longrightarrow> k < 256 \<Longrightarrow> byte k \<noteq> 0x0A"
  using unat_byte[of k] by auto

lemma ascii_byte_LF: "n < 0x80 \<Longrightarrow> byte n = 0x0A \<longleftrightarrow> n = 10"
  using unat_byte[of n] by (auto simp: byte_def)

lemma utf8_scalar_LF: "n < 0x110000 \<Longrightarrow> 0x0A \<in> set (utf8_scalar n) \<longleftrightarrow> n = 10"
  unfolding utf8_scalar_def
  by (simp add: byte_neq_LF ascii_byte_LF)

lemma pair_scalar_bound:
  "high_surrogate c \<Longrightarrow> low_surrogate d
     \<Longrightarrow> 0x10000 \<le> pair_scalar c d \<and> pair_scalar c d < 0x110000"
  unfolding high_surrogate_def low_surrogate_def pair_scalar_def
  by (simp add: word_le_nat_alt) arith

lemma unat_16_bound: "unat (c :: 16 word) < 0x110000"
  using unsigned_less[of c, where 'a=nat] by simp

lemma utf8_unit_LF: "0x0A \<in> set (utf8_unit c) \<longleftrightarrow> c = LF"
proof -
  have "unat c = 10 \<longleftrightarrow> c = 10"
    by (simp add: word_unat_eq_iff)
  moreover have "c = 10 \<Longrightarrow> \<not> high_surrogate c \<and> \<not> low_surrogate c"
    by (simp add: high_surrogate_def low_surrogate_def)
  ultimately show ?thesis
    unfolding utf8_unit_def by (auto simp: utf8_scalar_LF unat_16_bound)
qed

lemma not_surrogate_LF [simp]: "\<not> high_surrogate LF" "\<not> low_surrogate LF"
  by (simp_all add: high_surrogate_def low_surrogate_def)

lemma utf8_unit_LF_eq [simp]: "utf8_unit LF = [0x0A]"
  by (simp add: utf8_unit_def utf8_scalar_def byte_def)

lemma utf8_Cons_LF [simp]: "utf8 (LF # s) = 0x0A # utf8 s"
  by (cases s) simp_all

text \<open>A line feed never pairs with a neighbour, so the encoding splits at it.\<close>

lemma utf8_append_LF: "utf8 (a @ LF # b) = utf8 a @ 0x0A # utf8 b"
  by (induction a rule: utf8.induct) simp_all

lemma pair_no_LF:
  "high_surrogate c \<Longrightarrow> low_surrogate d \<Longrightarrow> 0x0A \<notin> set (utf8_scalar (pair_scalar c d))"
  using pair_scalar_bound[of c d] by (simp add: utf8_scalar_LF)

lemma utf8_no_LF: "LF \<notin> set s \<Longrightarrow> 0x0A \<notin> set (utf8 s)"
proof (induction s rule: utf8.induct)
  case 1
  show ?case by simp
next
  case (2 c)
  then show ?case by (simp add: utf8_unit_LF)
next
  case (3 c d ds)
  show ?case
  proof (cases "high_surrogate c \<and> low_surrogate d")
    case True
    with 3 show ?thesis by (simp add: pair_no_LF)
  next
    case False
    with 3 show ?thesis by (auto simp: utf8_unit_LF)
  qed
qed

lemma utf8_MB2: "utf8 (ascii ''MB2'') = [0x4D, 0x42, 0x32]"
  by (simp add: ascii_def utf8_unit_def utf8_scalar_def byte_def high_surrogate_def
      low_surrogate_def)

section \<open>UTF-8 can be decoded on well-formed strings\<close>

lemma unat_utf8_scalar:
  assumes "n < 0x110000"
  shows "map unat (utf8_scalar n) =
     (if n < 0x80 then [n]
      else if n < 0x800 then [0xC0 + n div 0x40, 0x80 + n mod 0x40]
      else if n < 0x10000 then [0xE0 + n div 0x1000, 0x80 + n div 0x40 mod 0x40, 0x80 + n mod 0x40]
      else [0xF0 + n div 0x40000, 0x80 + n div 0x1000 mod 0x40, 0x80 + n div 0x40 mod 0x40,
            0x80 + n mod 0x40])"
proof -
  have c: "\<And>k. unat (byte (0x80 + k mod 0x40)) = 0x80 + k mod 0x40"
    by (rule unat_byte) simp
  have l1: "n < 0x80 \<Longrightarrow> unat (byte n) = n"
    by (rule unat_byte) simp
  have l2: "n < 0x800 \<Longrightarrow> unat (byte (0xC0 + n div 0x40)) = 0xC0 + n div 0x40"
    by (rule unat_byte) simp
  have l3: "n < 0x10000 \<Longrightarrow> unat (byte (0xE0 + n div 0x1000)) = 0xE0 + n div 0x1000"
    by (rule unat_byte) simp
  have l4: "unat (byte (0xF0 + n div 0x40000)) = 0xF0 + n div 0x40000"
    using assms by (intro unat_byte) simp
  show ?thesis
    unfolding utf8_scalar_def by (simp add: c l1 l2 l3 l4)
qed

lemma split2: "n div 0x40 * 0x40 + n mod 0x40 = (n::nat)"
  by simp

lemma split_shift:
  "k div 0x40 * (0x40 * c) + k mod 0x40 * c = k * (c::nat)"
proof -
  have "k div 0x40 * (0x40 * c) + k mod 0x40 * c = (k div 0x40 * 0x40 + k mod 0x40) * c"
    by (simp only: distrib_right mult.assoc)
  then show ?thesis by (simp only: div_mult_mod_eq)
qed

lemma split3: "n div 0x1000 * 0x1000 + n div 0x40 mod 0x40 * 0x40 + n mod 0x40 = (n::nat)"
proof -
  have "n div 0x1000 = n div 0x40 div 0x40"
    by (simp add: div_mult2_eq[symmetric])
  then have "n div 0x1000 * 0x1000 + n div 0x40 mod 0x40 * 0x40 = n div 0x40 * 0x40"
    using split_shift[of "n div 0x40" "0x40"] by simp
  then show ?thesis by simp
qed

lemma split4:
  "n div 0x40000 * 0x40000 + n div 0x1000 mod 0x40 * 0x1000 + n div 0x40 mod 0x40 * 0x40
     + n mod 0x40 = (n::nat)"
proof -
  have "n div 0x40000 = n div 0x1000 div 0x40"
    by (simp add: div_mult2_eq[symmetric])
  then have "n div 0x40000 * 0x40000 + n div 0x1000 mod 0x40 * 0x1000 = n div 0x1000 * 0x1000"
    using split_shift[of "n div 0x1000" "0x1000"] by simp
  with split3[of n] show ?thesis by simp
qed

lemma first_scalar_utf8:
  assumes "n < 0x110000"
  shows "first_scalar (map unat (utf8_scalar n @ x)) = n"
proof -
  consider "n < 0x80" | "0x80 \<le> n" "n < 0x800" | "0x800 \<le> n" "n < 0x10000" | "0x10000 \<le> n"
    by linarith
  then show ?thesis
  proof cases
    case 1
    then show ?thesis
      by (simp add: unat_utf8_scalar[OF assms] first_scalar_def)
  next
    case 2
    then have "0xC0 + n div 0x40 < (0xE0::nat)" "\<not> 0xC0 + n div 0x40 < (0x80::nat)" by simp_all
    with 2 show ?thesis
      using split2[of n] by (simp add: unat_utf8_scalar[OF assms] first_scalar_def)
  next
    case 3
    then have "0xE0 + n div 0x1000 < (0xF0::nat)" "\<not> 0xE0 + n div 0x1000 < (0xE0::nat)"
      by simp_all
    with 3 show ?thesis
      using split3[of n] by (simp add: unat_utf8_scalar[OF assms] first_scalar_def)
  next
    case 4
    then have "\<not> 0xF0 + n div 0x40000 < (0xF0::nat)"
      by simp_all
    with 4 show ?thesis
      using split4[of n] by (simp add: unat_utf8_scalar[OF assms] first_scalar_def)
  qed
qed

lemma utf8_scalar_prefix_free:
  assumes "m < 0x110000" "n < 0x110000" "utf8_scalar m @ x = utf8_scalar n @ y"
  shows "m = n \<and> x = y"
proof -
  have "m = n"
    using first_scalar_utf8[OF assms(1), of x] first_scalar_utf8[OF assms(2), of y] assms(3)
    by simp
  with assms(3) show ?thesis by simp
qed

lemma utf8_scalar_Cons: "\<exists>b bs. utf8_scalar n = b # bs"
  by (simp add: utf8_scalar_def)

lemma utf8_well_formed:
  "well_formed s \<Longrightarrow> utf8 s = concat (map utf8_scalar (scalars s))"
  by (induction s rule: utf8.induct) (auto simp: utf8_unit_def)

lemma unat_16_less: "unat (c :: 16 word) < 0x10000"
  using unsigned_less[of c, where 'a=nat] by simp

lemma scalars_bound: "n \<in> set (scalars s) \<Longrightarrow> n < 0x110000"
proof (induction s rule: scalars.induct)
  case 1
  then show ?case by simp
next
  case (2 c)
  then show ?case using unat_16_less[of c] by simp
next
  case (3 c d ds)
  then show ?case
    using unat_16_less[of c] pair_scalar_bound[of c d] by (auto split: if_splits)
qed

lemma concat_utf8_scalar_inj:
  "\<forall>n\<in>set ms. n < 0x110000 \<Longrightarrow> \<forall>n\<in>set ns. n < 0x110000
     \<Longrightarrow> concat (map utf8_scalar ms) = concat (map utf8_scalar ns) \<Longrightarrow> ms = ns"
proof (induction ms arbitrary: ns)
  case Nil
  show ?case
  proof (cases ns)
    case Nil
    then show ?thesis by simp
  next
    case (Cons n ns')
    obtain b bs where "utf8_scalar n = b # bs"
      using utf8_scalar_Cons by blast
    with Nil.prems(3) Cons show ?thesis by simp
  qed
next
  case (Cons m ms)
  show ?case
  proof (cases ns)
    case Nil
    obtain b bs where "utf8_scalar m = b # bs"
      using utf8_scalar_Cons by blast
    with Cons.prems(3) Nil show ?thesis by simp
  next
    case (Cons n ns')
    have "m = n \<and> concat (map utf8_scalar ms) = concat (map utf8_scalar ns')"
    proof (rule utf8_scalar_prefix_free)
      show "m < 0x110000" using Cons.prems(1) by simp
      show "n < 0x110000" using Cons.prems(2) Cons by simp
      show "utf8_scalar m @ concat (map utf8_scalar ms)
          = utf8_scalar n @ concat (map utf8_scalar ns')"
        using Cons.prems(3) Cons by simp
    qed
    moreover have "\<forall>n\<in>set ms. n < 0x110000" "\<forall>n\<in>set ns'. n < 0x110000"
      using Cons.prems(1,2) Cons by simp_all
    ultimately show ?thesis
      using Cons.IH[of ns'] Cons by simp
  qed
qed

lemma radix_unique:
  assumes "a * 0x400 + b = a' * 0x400 + b'" "b < 0x400" "b' < (0x400::nat)"
  shows "a = a' \<and> b = b'"
proof -
  have "(a * 0x400 + b) div 0x400 = a" "(a' * 0x400 + b') div 0x400 = a'"
    using assms(2,3) by simp_all
  with assms(1) have "a = a'" by simp
  with assms(1) show ?thesis by simp
qed

lemma pair_scalar_inj:
  assumes "high_surrogate c" "low_surrogate d" "high_surrogate c'" "low_surrogate d'"
    and "pair_scalar c d = pair_scalar c' d'"
  shows "c = c' \<and> d = d'"
proof -
  have b: "0xD800 \<le> unat c" "0xDC00 \<le> unat d" "unat d - 0xDC00 < 0x400"
    "0xD800 \<le> unat c'" "0xDC00 \<le> unat d'" "unat d' - 0xDC00 < 0x400"
    using assms(1-4) unfolding high_surrogate_def low_surrogate_def
    by (simp_all add: word_le_nat_alt) linarith+
  have "(unat c - 0xD800) * 0x400 + (unat d - 0xDC00)
      = (unat c' - 0xD800) * 0x400 + (unat d' - 0xDC00)"
    using assms(5) unfolding pair_scalar_def by simp
  from radix_unique[OF this b(3) b(6)] b(1,2,4,5)
  have "unat c = unat c' \<and> unat d = unat d'" by linarith
  then show ?thesis by (simp add: word_unat_eq_iff)
qed

lemma scalars_Nil: "scalars s = [] \<longleftrightarrow> s = []"
  by (induction s rule: scalars.induct) auto

lemma scalars_singleton:
  assumes "well_formed b" "scalars b = [unat c]" "\<not> high_surrogate c" "\<not> low_surrogate c"
  shows "b = [c]"
proof (cases b rule: scalars.cases)
  case 1
  with assms show ?thesis by simp
next
  case (2 c')
  with assms show ?thesis by (simp add: word_unat_eq_iff)
next
  case (3 c' d' ds)
  show ?thesis
  proof (cases "high_surrogate c' \<and> low_surrogate d'")
    case True
    with assms(2) 3 pair_scalar_bound[of c' d'] unat_16_less[of c] show ?thesis by simp
  next
    case False
    with assms(2) 3 have "scalars (d' # ds) = []" by simp
    then show ?thesis by (simp add: scalars_Nil)
  qed
qed

lemma scalars_inj:
  "well_formed a \<Longrightarrow> well_formed b \<Longrightarrow> scalars a = scalars b \<Longrightarrow> a = b"
proof (induction a arbitrary: b rule: scalars.induct)
  case 1
  then show ?case using scalars_Nil[of b] by simp
next
  case (2 c)
  then show ?case using scalars_singleton[of b c] by simp
next
  case (3 c d ds)
  show ?case
  proof (cases "high_surrogate c")
    case True
    with "3.prems"(1) have ld: "low_surrogate d" and wf: "well_formed ds" by simp_all
    from True ld "3.prems"(3) have sb: "scalars b = pair_scalar c d # scalars ds" by simp
    show ?thesis
    proof (cases b rule: scalars.cases)
      case 1
      with sb show ?thesis by simp
    next
      case (2 c')
      with sb pair_scalar_bound[OF True ld] unat_16_less[of c'] show ?thesis by simp
    next
      case b3: (3 c' d' ds')
      show ?thesis
      proof (cases "high_surrogate c' \<and> low_surrogate d'")
        case pr: True
        with sb b3 have "pair_scalar c d = pair_scalar c' d'" "scalars ds = scalars ds'" by simp_all
        moreover from pr b3 "3.prems"(2) have "well_formed ds'" by simp
        ultimately show ?thesis
          using pair_scalar_inj[OF True ld, of c' d'] pr "3.IH"(1)[OF _ wf, of ds'] True ld b3
          by simp
      next
        case False
        with sb b3 pair_scalar_bound[OF True ld] unat_16_less[of c'] show ?thesis by simp
      qed
    qed
  next
    case False
    with "3.prems"(1) have nl: "\<not> low_surrogate c" and wf: "well_formed (d # ds)" by simp_all
    from False "3.prems"(3) have sb: "scalars b = unat c # scalars (d # ds)" by simp
    have ne: "scalars (d # ds) \<noteq> []" by (simp add: scalars_Nil)
    show ?thesis
    proof (cases b rule: scalars.cases)
      case 1
      with sb show ?thesis by simp
    next
      case (2 c')
      with sb ne show ?thesis by simp
    next
      case b3: (3 c' d' ds')
      show ?thesis
      proof (cases "high_surrogate c' \<and> low_surrogate d'")
        case pr: True
        with sb b3 pair_scalar_bound[of c' d'] unat_16_less[of c] show ?thesis by simp
      next
        case npr: False
        with sb b3 have "unat c = unat c'" "scalars (d # ds) = scalars (d' # ds')" by simp_all
        then have cc: "c = c'" by (simp add: word_unat_eq_iff)
        with False b3 "3.prems"(2) have "well_formed (d' # ds')" by simp
        with "3.IH"(2)[OF _ wf, of "d' # ds'"] False \<open>scalars (d # ds) = scalars (d' # ds')\<close>
        have "d # ds = d' # ds'" by simp
        with cc b3 show ?thesis by simp
      qed
    qed
  qed
qed

lemma utf8_inj:
  assumes "well_formed a" "well_formed b" "utf8 a = utf8 b"
  shows "a = b"
proof -
  have "concat (map utf8_scalar (scalars a)) = concat (map utf8_scalar (scalars b))"
    using assms by (simp add: utf8_well_formed)
  then have "scalars a = scalars b"
    using scalars_bound by (intro concat_utf8_scalar_inj) blast+
  with assms(1,2) show ?thesis by (rule scalars_inj)
qed

section \<open>The canonical message\<close>

text \<open>
  C1. For string inputs, \<open>buildMb2Message\<close> returns the UTF-8 bytes of
  \<open>"MB2\n" + ts + "\n" + nonce + "\n" + agent_name + "\n" + uppercase(method) + "\n" + path +
  "\n" + body_sha256_b64 + "\n"\<close>, trailing line feed included. Byte for byte, that is
  the header \<open>4D 42 32 0A\<close> followed by the encoding of each field and one \<open>0A\<close> after
  each. The builder is a function of its arguments alone, so equal inputs give equal
  bytes.
\<close>

theorem buildMb2Message_canonical:
  "buildMb2Message up (Str t) (Str n) (Str a) (Str m) (Str p) (Str h)
     = Inr (utf8 (ascii ''MB2\<newline>'' @ t @ ascii ''\<newline>'' @ n @ ascii ''\<newline>'' @ a
                  @ ascii ''\<newline>'' @ up m @ ascii ''\<newline>'' @ p @ ascii ''\<newline>'' @ h
                  @ ascii ''\<newline>''))
   \<and> buildMb2Message up (Str t) (Str n) (Str a) (Str m) (Str p) (Str h)
     = Inr ([0x4D, 0x42, 0x32, 0x0A] @ utf8 t @ [0x0A] @ utf8 n @ [0x0A] @ utf8 a @ [0x0A]
            @ utf8 (up m) @ [0x0A] @ utf8 p @ [0x0A] @ utf8 h @ [0x0A])"
proof -
  have lit: "ascii ''MB2\<newline>'' = ascii ''MB2'' @ [LF]" "ascii ''\<newline>'' = [LF]"
    by (simp_all add: ascii_def)
  show ?thesis
    unfolding buildMb2Message_def lit
    by (simp add: utf8_append_LF utf8_MB2)
qed

lemma buildMb2Message_bytes:
  "buildMb2Message up (Str t) (Str n) (Str a) (Str m) (Str p) (Str h)
     = Inr ([0x4D, 0x42, 0x32, 0x0A] @ utf8 t @ 0x0A # utf8 n @ 0x0A # utf8 a @ 0x0A
            # utf8 (up m) @ 0x0A # utf8 p @ 0x0A # utf8 h @ [0x0A])"
  unfolding buildMb2Message_def by (simp add: utf8_append_LF utf8_MB2)

lemma split_at_LF:
  "(0x0A::8 word) \<notin> set x \<Longrightarrow> 0x0A \<notin> set x' \<Longrightarrow> x @ 0x0A # r = x' @ 0x0A # r'
     \<Longrightarrow> x = x' \<and> r = r'"
proof (induction x arbitrary: x')
  case Nil
  then show ?case by (cases x') auto
next
  case (Cons b x)
  then show ?case by (cases x') auto
qed

text \<open>
  C3 (as amended). The builder is injective on well-formed strings whose line-oriented
  fields carry no line feed, up to the case of the method: when the time stamp, nonce,
  agent name, upper-cased method and path of two inputs contain no line feed and every
  field is free of lone surrogates, equal canonical messages have equal time stamps,
  nonces, agent names, paths and digests, and methods with the same upper-case form.
\<close>

theorem buildMb2Message_injective:
  assumes wf: "well_formed t" "well_formed n" "well_formed a" "well_formed (up m)"
      "well_formed p" "well_formed h"
      "well_formed t'" "well_formed n'" "well_formed a'" "well_formed (up m')"
      "well_formed p'" "well_formed h'"
    and nl: "LF \<notin> set t" "LF \<notin> set n" "LF \<notin> set a" "LF \<notin> set (up m)" "LF \<notin> set p"
      "LF \<notin> set t'" "LF \<notin> set n'" "LF \<notin> set a'" "LF \<notin> set (up m')" "LF \<notin> set p'"
    and eq: "buildMb2Message up (Str t) (Str n) (Str a) (Str m) (Str p) (Str h)
           = buildMb2Message up (Str t') (Str n') (Str a') (Str m') (Str p') (Str h')"
  shows "t = t' \<and> n = n' \<and> a = a' \<and> up m = up m' \<and> p = p' \<and> h = h'"
proof -
  from eq have e0: "utf8 t @ 0x0A # utf8 n @ 0x0A # utf8 a @ 0x0A # utf8 (up m) @ 0x0A # utf8 p
        @ 0x0A # utf8 h @ [0x0A]
      = utf8 t' @ 0x0A # utf8 n' @ 0x0A # utf8 a' @ 0x0A # utf8 (up m') @ 0x0A # utf8 p'
        @ 0x0A # utf8 h' @ [0x0A]"
    by (simp add: buildMb2Message_bytes)
  from split_at_LF[OF utf8_no_LF[OF nl(1)] utf8_no_LF[OF nl(6)] e0]
  have t: "utf8 t = utf8 t'" and e1: "utf8 n @ 0x0A # utf8 a @ 0x0A # utf8 (up m) @ 0x0A # utf8 p
        @ 0x0A # utf8 h @ [0x0A]
      = utf8 n' @ 0x0A # utf8 a' @ 0x0A # utf8 (up m') @ 0x0A # utf8 p' @ 0x0A # utf8 h' @ [0x0A]"
    by simp_all
  from split_at_LF[OF utf8_no_LF[OF nl(2)] utf8_no_LF[OF nl(7)] e1]
  have n: "utf8 n = utf8 n'" and e2: "utf8 a @ 0x0A # utf8 (up m) @ 0x0A # utf8 p
        @ 0x0A # utf8 h @ [0x0A]
      = utf8 a' @ 0x0A # utf8 (up m') @ 0x0A # utf8 p' @ 0x0A # utf8 h' @ [0x0A]"
    by simp_all
  from split_at_LF[OF utf8_no_LF[OF nl(3)] utf8_no_LF[OF nl(8)] e2]
  have a: "utf8 a = utf8 a'" and e3: "utf8 (up m) @ 0x0A # utf8 p @ 0x0A # utf8 h @ [0x0A]
      = utf8 (up m') @ 0x0A # utf8 p' @ 0x0A # utf8 h' @ [0x0A]"
    by simp_all
  from split_at_LF[OF utf8_no_LF[OF nl(4)] utf8_no_LF[OF nl(9)] e3]
  have m: "utf8 (up m) = utf8 (up m')" and e4: "utf8 p @ 0x0A # utf8 h @ [0x0A]
      = utf8 p' @ 0x0A # utf8 h' @ [0x0A]"
    by simp_all
  from split_at_LF[OF utf8_no_LF[OF nl(5)] utf8_no_LF[OF nl(10)] e4]
  have p: "utf8 p = utf8 p'" and h: "utf8 h = utf8 h'"
    by simp_all
  show ?thesis
    using utf8_inj[OF wf(1) wf(7) t] utf8_inj[OF wf(2) wf(8) n] utf8_inj[OF wf(3) wf(9) a]
      utf8_inj[OF wf(4) wf(10) m] utf8_inj[OF wf(5) wf(11) p] utf8_inj[OF wf(6) wf(12) h]
    by simp
qed

text \<open>
  The hypotheses hold for two requests that differ in the case of the method only, and
  the theorem gives the equality of the upper-cased methods.
\<close>

theorem buildMb2Message_injective_witness:
  "buildMb2Message ascii_toUpperCase (Str (ascii ''1700000000'')) (Str (ascii ''abc123''))
      (Str (ascii ''A'')) (Str (ascii ''post'')) (Str (ascii ''/api/v1/posts'')) (Str (ascii ''h=''))
   = buildMb2Message ascii_toUpperCase (Str (ascii ''1700000000'')) (Str (ascii ''abc123''))
      (Str (ascii ''A'')) (Str (ascii ''POST'')) (Str (ascii ''/api/v1/posts'')) (Str (ascii ''h=''))
   \<and> ascii_toUpperCase (ascii ''post'') = ascii_toUpperCase (ascii ''POST'')
   \<and> well_formed (ascii ''/api/v1/posts'') \<and> LF \<notin> set (ascii ''/api/v1/posts'')"
proof -
  have up: "ascii_toUpperCase (ascii ''post'') = ascii ''POST''"
    "ascii_toUpperCase (ascii ''POST'') = ascii ''POST''"
    by (simp_all add: ascii_toUpperCase_def ascii_def)
  have eq: "buildMb2Message ascii_toUpperCase (Str (ascii ''1700000000'')) (Str (ascii ''abc123''))
      (Str (ascii ''A'')) (Str (ascii ''post'')) (Str (ascii ''/api/v1/posts'')) (Str (ascii ''h=''))
   = buildMb2Message ascii_toUpperCase (Str (ascii ''1700000000'')) (Str (ascii ''abc123''))
      (Str (ascii ''A'')) (Str (ascii ''POST'')) (Str (ascii ''/api/v1/posts'')) (Str (ascii ''h=''))"
    by (simp add: buildMb2Message_def up)
  have wf: "well_formed (ascii ''1700000000'')" "well_formed (ascii ''abc123'')"
    "well_formed (ascii ''A'')" "well_formed (ascii ''POST'')"
    "well_formed (ascii ''/api/v1/posts'')" "well_formed (ascii ''h='')"
    by (simp_all add: ascii_def high_surrogate_def low_surrogate_def)
  have nl: "LF \<notin> set (ascii ''1700000000'')" "LF \<notin> set (ascii ''abc123'')"
    "LF \<notin> set (ascii ''A'')" "LF \<notin> set (ascii ''POST'')" "LF \<notin> set (ascii ''/api/v1/posts'')"
    by (simp_all add: ascii_def)
  from buildMb2Message_injective[of "ascii ''1700000000''" "ascii ''abc123''" "ascii ''A''"
      ascii_toUpperCase "ascii ''post''" "ascii ''/api/v1/posts''" "ascii ''h=''"
      "ascii ''1700000000''" "ascii ''abc123''" "ascii ''A''" "ascii ''POST''"
      "ascii ''/api/v1/posts''" "ascii ''h=''"] wf nl eq
  have "ascii_toUpperCase (ascii ''post'') = ascii_toUpperCase (ascii ''POST'')"
    by (simp add: up)
  with eq wf(5) nl(5) show ?thesis by simp
qed

text \<open>
  C3 as stated fails: the builder checks no field for a line feed, so a nonce ending in
  a line feed and \<open>A\<close> before the agent name \<open>B\<close>, and the nonce without them before an agent
  name made of \<open>A\<close>, a line feed and \<open>B\<close>, give the same bytes.
\<close>

theorem buildMb2Message_newline_collision:
  "buildMb2Message ascii_toUpperCase (Str (ascii ''1700000000''))
      (Str (ascii ''abc\<newline>A'')) (Str (ascii ''B'')) (Str (ascii ''POST''))
      (Str (ascii ''/p'')) (Str (ascii ''h=''))
   = buildMb2Message ascii_toUpperCase (Str (ascii ''1700000000''))
      (Str (ascii ''abc'')) (Str (ascii ''A\<newline>B'')) (Str (ascii ''POST''))
      (Str (ascii ''/p'')) (Str (ascii ''h=''))
   \<and> ascii ''abc\<newline>A'' \<noteq> ascii ''abc''
   \<and> ascii ''B'' \<noteq> ascii ''A\<newline>B''"
  by (simp add: buildMb2Message_def ascii_def)

text \<open>
  C4 (as amended). The builder validates nothing. With a method string it succeeds
  whatever the other fields are, empty and absent ones included; with an absent method
  it fails with the \<open>TypeError\<close> of calling \<open>toUpperCase\<close> on \<open>undefined\<close>; it never
  fails with \<open>MalformedSigningInput\<close>.
\<close>

theorem buildMb2Message_no_validation:
  "(\<exists>msg. buildMb2Message up ts nonce agentName (Str m) pathOnly bodySha256 = Inr msg)
   \<and> buildMb2Message up ts nonce agentName Undefined pathOnly bodySha256 = Inl TypeError
   \<and> buildMb2Message up ts nonce agentName method pathOnly bodySha256 \<noteq> Inl MalformedSigningInput"
  by (cases "method") (simp_all add: buildMb2Message_def)

text \<open>
  C4 as stated fails: with every field empty the builder returns the header and seven
  line feeds instead of an error.
\<close>

theorem buildMb2Message_accepts_empty_fields:
  "buildMb2Message ascii_toUpperCase (Str []) (Str []) (Str []) (Str []) (Str []) (Str [])
     = Inr [0x4D, 0x42, 0x32, 0x0A, 0x0A, 0x0A, 0x0A, 0x0A, 0x0A, 0x0A]"
  by (simp add: buildMb2Message_bytes ascii_toUpperCase_def)

section \<open>The concrete instance, evaluated\<close>

lemma demo_ts: "js_String 1700000000 = ascii ''1700000000''"
  by (simp add: js_String_def ascii_def)

lemma demo_uuid0: "ascii ''uuid-'' @ js_String 0 = ascii ''uuid-0''"
  by (simp add: js_String_def ascii_def)

lemma demo_upper: "ascii_toUpperCase (ascii ''post'') = ascii ''POST''"
  by (simp add: ascii_toUpperCase_def ascii_def)

lemma demo_build:
  "buildMb2Message ascii_toUpperCase (Str (ascii ''1700000000'')) (Str (ascii ''uuid-0''))
     (Str (ascii ''A'')) (Str (ascii ''post'')) (Str (ascii ''/p'')) (Str (ascii ''{}''))
   = Inr demo_msg"
  by (simp add: buildMb2Message_def demo_msg_def demo_upper) (simp add: ascii_def)

lemma demo_digest: "map ucast (utf8 (ascii ''{}'')) = ascii ''{}''"
  by (simp add: ascii_def utf8_unit_def utf8_scalar_def byte_def high_surrogate_def
        low_surrogate_def)

lemma demo_request:
  "request demo_platform demo_client demo_world (ascii ''post'') (ascii ''/p'') (Some (ascii ''{}''))
   = (Inr (Some (ascii ''{}'')), demo_client\<lparr>this_loaded := True\<rparr>,
      demo_world\<lparr>uuid_count := 1\<rparr>,
      demo_events)"
proof -
  have a: "ascii ''http://localhost:3456'' @ ascii ''/p'' = ascii ''http://localhost:3456/p''"
    "ascii ''Bearer '' @ ascii ''mb_k'' = ascii ''Bearer mb_k''" "ascii ''{}'' \<noteq> []"
    by (simp_all add: ascii_def)
  show ?thesis
    by (simp add: request_def loadIdentity_def demo_platform_def demo_client_def demo_world_def
        Let_def demo_ts demo_uuid0 demo_build demo_digest sha256Base64_def read_response_def
        demo_req_def demo_events_def a)
qed

lemma demo_Fetch: "Fetch demo_req \<in> set demo_events"
  by (simp add: demo_events_def)

lemma demo_SdkSign: "SdkSign demo_msg \<in> set demo_events"
  by (simp add: demo_events_def)

lemma demo_uuid1: "ascii ''uuid-'' @ js_String 1 = ascii ''uuid-1''"
  by (simp add: js_String_def ascii_def)

lemma demo_request_unknown_identity:
  "request demo_platform (demo_client\<lparr>this_agentId := ascii ''agent-2''\<rparr>) demo_world
       (ascii ''post'') (ascii ''/p'') (Some (ascii ''{}''))
     = (Inl (CredentialsNotFound (ascii ''agent-2'')),
        demo_client\<lparr>this_agentId := ascii ''agent-2''\<rparr>, demo_world,
        [SdkLoad (ascii ''agent-2'')])"
  by (simp add: request_def loadIdentity_def demo_platform_def demo_client_def ascii_def)

lemma demo_new:
  "new_TrustbookEsignClient demo_platform (Str (ascii ''http://localhost:3456/''))
     (Str (ascii ''mb_k'')) (Str (ascii ''agent-1'')) (Str (ascii ''A'')) Undefined
   = Inr demo_client"
  by (simp add: new_TrustbookEsignClient_def demo_platform_def demo_client_def
      resolveEsignModule_def strip_trailing_slashes_def ascii_def)

lemma demo_constructed: "constructed demo_platform demo_client"
  using demo_new by (rule constructed_new)

section \<open>What a request signs and sends\<close>

lemma request_SdkSign:
  assumes "request P c w m p bo = (res, c', w', evs)" and "SdkSign msg \<in> set evs"
  shows "\<exists>text. (case bo of None \<Rightarrow> text = [] | Some b \<Rightarrow> JSON_stringify P b = Inr text)
           \<and> buildMb2Message (toUpperCase P) (Str (js_String (now_ms w div 1000)))
                 (Str (uuid_source w (uuid_count w))) (Str (this_agentName c)) (Str m) (Str p)
                 (Str (sha256Base64 P (utf8 text))) = Inr msg
           \<and> w' = w\<lparr>uuid_count := Suc (uuid_count w)\<rparr>
           \<and> (this_loaded c \<or> sdk_load P (this_agentId c) = Inr True)
           \<and> c' = c\<lparr>this_loaded := True\<rparr>"
  using assms
  unfolding request_def loadIdentity_def
  by (auto simp: Let_def split: if_splits sum.splits prod.splits option.splits)

lemma request_Fetch:
  assumes "request P c w m p bo = (res, c', w', evs)" and "Fetch r \<in> set evs"
  shows "\<exists>text msg sv.
           (case bo of None \<Rightarrow> text = [] | Some b \<Rightarrow> JSON_stringify P b = Inr text)
           \<and> buildMb2Message (toUpperCase P) (Str (js_String (now_ms w div 1000)))
                 (Str (uuid_source w (uuid_count w))) (Str (this_agentName c)) (Str m) (Str p)
                 (Str (sha256Base64 P (utf8 text))) = Inr msg
           \<and> sdk_sign P msg = Inr sv
           \<and> (this_loaded c \<or> sdk_load P (this_agentId c) = Inr True)
           \<and> r = \<lparr>req_url = this_baseUrl c @ p, req_method = m,
                    req_headers =
                      [(ascii ''Authorization'', ascii ''Bearer '' @ this_apiKey c),
                       (ascii ''X-MB-Signature'', ToString sv),
                       (ascii ''X-MB-Signature-Alg'', this_signatureAlg c),
                       (ascii ''X-MB-Signature-Ts'', js_String (now_ms w div 1000)),
                       (ascii ''X-MB-Signature-Nonce'', uuid_source w (uuid_count w))]
                      @ (if bo \<noteq> None then [(ascii ''Content-Type'', ascii ''application/json'')]
                         else []),
                    req_body = (if bo = None then None else Some text)\<rparr>
           \<and> evs = (if this_loaded c then [] else [SdkLoad (this_agentId c)])
                   @ [SdkSign msg, Fetch r]"
  using assms
  unfolding request_def loadIdentity_def
  by (auto simp: Let_def split: if_splits sum.splits prod.splits option.splits)

lemma request_no_Fetch:
  assumes "request P c w m p bo = (res, c', w', evs)"
    and "(\<not> this_loaded c \<and> sdk_load P (this_agentId c) \<noteq> Inr True)
         \<or> (\<exists>msg e. SdkSign msg \<in> set evs \<and> sdk_sign P msg = Inl e)"
  shows "(\<exists>e. res = Inl e) \<and> (\<forall>r. Fetch r \<notin> set evs)"
  using assms
  unfolding request_def loadIdentity_def
  by (auto simp: Let_def split: if_splits sum.splits prod.splits option.splits)

lemma ToString_truthy: "\<not> falsy v \<Longrightarrow> ToString v \<noteq> []"
  by (cases v) simp_all

lemma new_agentName:
  "new_TrustbookEsignClient P baseUrl apiKey agentId agentName signatureAlg = Inr c
     \<Longrightarrow> this_agentName c = ToString agentName \<and> \<not> falsy agentName"
  unfolding new_TrustbookEsignClient_def
  by (auto split: if_splits sum.splits option.splits)

lemma loadIdentity_agentName:
  "loadIdentity P c = (r, c', ev) \<Longrightarrow> this_agentName c' = this_agentName c"
  unfolding loadIdentity_def by (auto split: sum.splits if_splits)

lemma request_agentName:
  "request P c w m p bo = (res, c', w', evs) \<Longrightarrow> this_agentName c' = this_agentName c"
  unfolding request_def loadIdentity_def
  by (auto simp: Let_def split: if_splits sum.splits prod.splits option.splits)

lemma constructed_agentName: "constructed P c \<Longrightarrow> this_agentName c \<noteq> []"
proof (induction rule: constructed.induct)
  case (constructed_new baseUrl apiKey agentId agentName signatureAlg c)
  then show ?case using new_agentName ToString_truthy by metis
next
  case (constructed_load c r c' ev)
  then show ?case by (simp add: loadIdentity_agentName)
next
  case (constructed_request c w m p bo r c' w' ev)
  then show ?case by (simp add: request_agentName)
qed

lemma request_signs:
  assumes "request P c w m p bo = (res, c', w', evs)"
    and "this_loaded c \<or> sdk_load P (this_agentId c) = Inr True"
    and "case bo of None \<Rightarrow> bodyText = [] | Some b \<Rightarrow> JSON_stringify P b = Inr bodyText"
  shows "\<exists>msg. buildMb2Message (toUpperCase P) (Str (js_String (now_ms w div 1000)))
                 (Str (uuid_source w (uuid_count w))) (Str (this_agentName c)) (Str m) (Str p)
                 (Str (sha256Base64 P (utf8 bodyText))) = Inr msg
           \<and> SdkSign msg \<in> set evs
           \<and> (\<forall>msg'. SdkSign msg' \<in> set evs \<longrightarrow> msg' = msg)
           \<and> w' = w\<lparr>uuid_count := Suc (uuid_count w)\<rparr>
           \<and> c' = c\<lparr>this_loaded := True\<rparr>
           \<and> (\<forall>sv. sdk_sign P msg = Inr sv \<longrightarrow>
                 evs = (if this_loaded c then [] else [SdkLoad (this_agentId c)])
                   @ [SdkSign msg,
                      Fetch \<lparr>req_url = this_baseUrl c @ p, req_method = m,
                        req_headers =
                          [(ascii ''Authorization'', ascii ''Bearer '' @ this_apiKey c),
                           (ascii ''X-MB-Signature'', ToString sv),
                           (ascii ''X-MB-Signature-Alg'', this_signatureAlg c),
                           (ascii ''X-MB-Signature-Ts'', js_String (now_ms w div 1000)),
                           (ascii ''X-MB-Signature-Nonce'', uuid_source w (uuid_count w))]
                          @ (if bo \<noteq> None
                             then [(ascii ''Content-Type'', ascii ''application/json'')]
                             else []),
                        req_body = (if bo = None then None else Some bodyText)\<rparr>])"
  using assms
  unfolding request_def loadIdentity_def
  by (auto simp: Let_def buildMb2Message_def split: if_splits sum.splits prod.splits option.splits)

lemma request_stops_early:
  assumes "request P c w m p bo = (res, c', w', evs)"
    and "\<not> (this_loaded c \<or> sdk_load P (this_agentId c) = Inr True)
         \<or> \<not> (bo = None \<or> (\<exists>b t. bo = Some b \<and> JSON_stringify P b = Inr t))"
  shows "(\<forall>msg. SdkSign msg \<notin> set evs) \<and> (\<forall>r. Fetch r \<notin> set evs) \<and> w' = w"
  using assms
  unfolding request_def loadIdentity_def
  by (auto simp: Let_def split: if_splits sum.splits prod.splits option.splits)


text \<open>
  C5. When \<open>request\<close> sends a request, the bytes on the wire are the UTF-8 bytes of the
  JSON text computed once from the body object (no body and no bytes when the body object
  is absent), and the digest in the message handed to the signer is the base64 form of
  SHA-256 over exactly those bytes.
\<close>

theorem request_digest_covers_sent_body:
  assumes "request P c w m p bo = (res, c', w', evs)" and "Fetch r \<in> set evs"
  shows "\<exists>text msg.
           (case bo of
              None \<Rightarrow> text = [] \<and> req_body r = None
            | Some b \<Rightarrow> JSON_stringify P b = Inr text \<and> req_body r = Some text)
           \<and> wire_body r = utf8 text
           \<and> SdkSign msg \<in> set evs
           \<and> buildMb2Message (toUpperCase P) (Str (js_String (now_ms w div 1000)))
                 (Str (uuid_source w (uuid_count w))) (Str (this_agentName c)) (Str m) (Str p)
                 (Str (base64 P (sha256_digest P (wire_body r)))) = Inr msg"
proof -
  from request_Fetch[OF assms] obtain bodyText msg sv where
    t: "case bo of None \<Rightarrow> bodyText = [] | Some b \<Rightarrow> JSON_stringify P b = Inr bodyText"
    and b: "buildMb2Message (toUpperCase P) (Str (js_String (now_ms w div 1000)))
                 (Str (uuid_source w (uuid_count w))) (Str (this_agentName c)) (Str m) (Str p)
                 (Str (sha256Base64 P (utf8 bodyText))) = Inr msg"
    and body: "req_body r = (if bo = None then None else Some bodyText)"
    and ev: "evs = (if this_loaded c then [] else [SdkLoad (this_agentId c)])
                   @ [SdkSign msg, Fetch r]"
    by force
  from t body have w: "wire_body r = utf8 bodyText"
    by (cases bo) (simp_all add: wire_body_def)
  from t body have "case bo of
              None \<Rightarrow> bodyText = [] \<and> req_body r = None
            | Some b \<Rightarrow> JSON_stringify P b = Inr bodyText \<and> req_body r = Some bodyText"
    by (cases bo) simp_all
  moreover from ev have "SdkSign msg \<in> set evs" by simp
  ultimately show ?thesis
    using w b unfolding sha256Base64_def by auto
qed

theorem request_digest_covers_sent_body_witness:
  "request demo_platform demo_client demo_world (ascii ''post'') (ascii ''/p'') (Some (ascii ''{}''))
     = (Inr (Some (ascii ''{}'')), demo_client\<lparr>this_loaded := True\<rparr>,
        demo_world\<lparr>uuid_count := 1\<rparr>, demo_events)
   \<and> Fetch demo_req \<in> set demo_events
   \<and> wire_body demo_req = utf8 (ascii ''{}'')
   \<and> (\<exists>msg. SdkSign msg \<in> set demo_events
        \<and> buildMb2Message ascii_toUpperCase (Str (ascii ''1700000000'')) (Str (ascii ''uuid-0''))
              (Str (ascii ''A'')) (Str (ascii ''post'')) (Str (ascii ''/p''))
              (Str (map ucast (wire_body demo_req))) = Inr msg)"
  using request_digest_covers_sent_body[OF demo_request demo_Fetch] demo_request demo_Fetch
  by (simp add: demo_platform_def demo_client_def demo_world_def demo_ts demo_uuid0
      wire_body_def demo_req_def)

text \<open>
  C6. \<open>request\<close> takes a method, a path and a body object and nothing else. Every call
  that has its identity loaded and its body serialised signs exactly one message; the
  time stamp of that message is the decimal form of the clock reading of the call in
  whole seconds, and its nonce is the next value of \<open>crypto.randomUUID\<close>, which the call
  consumes. A following call therefore signs with the following value and with the clock
  reading of its own time. A call that fails before that point draws nothing, signs
  nothing and sends nothing.
\<close>

theorem request_generates_ts_and_nonce:
  assumes "request P c w m p bo = (res, c', w', evs)"
  shows "if (this_loaded c \<or> sdk_load P (this_agentId c) = Inr True)
            \<and> (bo = None \<or> (\<exists>b t. bo = Some b \<and> JSON_stringify P b = Inr t))
         then (\<exists>h msg. buildMb2Message (toUpperCase P) (Str (js_String (now_ms w div 1000)))
                   (Str (uuid_source w (uuid_count w))) (Str (this_agentName c)) (Str m) (Str p)
                   (Str h) = Inr msg
                 \<and> SdkSign msg \<in> set evs
                 \<and> (\<forall>msg'. SdkSign msg' \<in> set evs \<longrightarrow> msg' = msg))
              \<and> uuid_source w' = uuid_source w \<and> uuid_count w' = Suc (uuid_count w)
              \<and> (\<forall>t2 m2 p2 bo2 res2 c2 w2 evs2.
                    request P c' (w'\<lparr>now_ms := t2\<rparr>) m2 p2 bo2 = (res2, c2, w2, evs2)
                    \<longrightarrow> (bo2 = None \<or> (\<exists>b t. bo2 = Some b \<and> JSON_stringify P b = Inr t))
                    \<longrightarrow> (\<exists>h msg2. buildMb2Message (toUpperCase P) (Str (js_String (t2 div 1000)))
                               (Str (uuid_source w (Suc (uuid_count w))))
                               (Str (this_agentName c)) (Str m2) (Str p2) (Str h) = Inr msg2
                             \<and> SdkSign msg2 \<in> set evs2
                             \<and> (\<forall>msg'. SdkSign msg' \<in> set evs2 \<longrightarrow> msg' = msg2)))
         else (\<forall>msg. SdkSign msg \<notin> set evs) \<and> (\<forall>r. Fetch r \<notin> set evs) \<and> w' = w"
proof (cases "(this_loaded c \<or> sdk_load P (this_agentId c) = Inr True)
            \<and> (bo = None \<or> (\<exists>b t. bo = Some b \<and> JSON_stringify P b = Inr t))")
  case False
  with request_stops_early[OF assms] show ?thesis by auto
next
  case True
  then have load: "this_loaded c \<or> sdk_load P (this_agentId c) = Inr True" by simp
  from True obtain bodyText where
    bt: "case bo of None \<Rightarrow> bodyText = [] | Some b \<Rightarrow> JSON_stringify P b = Inr bodyText"
    by (cases bo) auto
  from request_signs[OF assms load bt] obtain msg where
    b: "buildMb2Message (toUpperCase P) (Str (js_String (now_ms w div 1000)))
                 (Str (uuid_source w (uuid_count w))) (Str (this_agentName c)) (Str m) (Str p)
                 (Str (sha256Base64 P (utf8 bodyText))) = Inr msg"
    and s: "SdkSign msg \<in> set evs" "\<forall>msg'. SdkSign msg' \<in> set evs \<longrightarrow> msg' = msg"
    and w': "w' = w\<lparr>uuid_count := Suc (uuid_count w)\<rparr>"
    and c': "c' = c\<lparr>this_loaded := True\<rparr>"
    by blast
  have second: "\<exists>h msg2. buildMb2Message (toUpperCase P) (Str (js_String (t2 div 1000)))
                               (Str (uuid_source w (Suc (uuid_count w))))
                               (Str (this_agentName c)) (Str m2) (Str p2) (Str h) = Inr msg2
                             \<and> SdkSign msg2 \<in> set evs2
                             \<and> (\<forall>msg'. SdkSign msg' \<in> set evs2 \<longrightarrow> msg' = msg2)"
    if r2: "request P c' (w'\<lparr>now_ms := t2\<rparr>) m2 p2 bo2 = (res2, c2, w2, evs2)"
      and b2: "bo2 = None \<or> (\<exists>b t. bo2 = Some b \<and> JSON_stringify P b = Inr t)"
    for t2 m2 p2 bo2 res2 c2 w2 evs2
  proof -
    from b2 obtain bodyText2 where
      bt2: "case bo2 of None \<Rightarrow> bodyText2 = [] | Some b \<Rightarrow> JSON_stringify P b = Inr bodyText2"
      by (cases bo2) auto
    have l2: "this_loaded c' \<or> sdk_load P (this_agentId c') = Inr True"
      using c' by simp
    from request_signs[OF r2 l2 bt2] show ?thesis
      using w' c' by auto
  qed
  have a1: "\<exists>h msg. buildMb2Message (toUpperCase P) (Str (js_String (now_ms w div 1000)))
                   (Str (uuid_source w (uuid_count w))) (Str (this_agentName c)) (Str m) (Str p)
                   (Str h) = Inr msg
                 \<and> SdkSign msg \<in> set evs
                 \<and> (\<forall>msg'. SdkSign msg' \<in> set evs \<longrightarrow> msg' = msg)"
    using b s by blast
  have a2: "uuid_source w' = uuid_source w" "uuid_count w' = Suc (uuid_count w)"
    using w' by simp_all
  show ?thesis
    unfolding if_P[OF True]
    by (intro conjI allI impI a1 a2 second)
qed

theorem request_generates_ts_and_nonce_witness:
  "request demo_platform demo_client demo_world (ascii ''post'') (ascii ''/p'') (Some (ascii ''{}''))
     = (Inr (Some (ascii ''{}'')), demo_client\<lparr>this_loaded := True\<rparr>,
        demo_world\<lparr>uuid_count := 1\<rparr>, demo_events)
   \<and> sdk_load demo_platform (this_agentId demo_client) = Inr True
   \<and> JSON_stringify demo_platform (ascii ''{}'') = Inr (ascii ''{}'')
   \<and> SdkSign demo_msg \<in> set demo_events
   \<and> uuid_count (demo_world\<lparr>uuid_count := 1\<rparr>) = Suc (uuid_count demo_world)
   \<and> (\<exists>res2 c2 w2 evs2 h msg2.
         request demo_platform (demo_client\<lparr>this_loaded := True\<rparr>)
             (demo_world\<lparr>uuid_count := 1, now_ms := 1700000060999\<rparr>)
             (ascii ''post'') (ascii ''/q'') (None :: jsstring option)
           = ((res2 :: error + jsstring option), c2, w2, evs2)
         \<and> buildMb2Message ascii_toUpperCase (Str (ascii ''1700000060'')) (Str (ascii ''uuid-1''))
             (Str (ascii ''A'')) (Str (ascii ''post'')) (Str (ascii ''/q'')) (Str h) = Inr msg2
         \<and> SdkSign msg2 \<in> set evs2)"
proof -
  have pre: "sdk_load demo_platform (this_agentId demo_client) = Inr True"
    "JSON_stringify demo_platform (ascii ''{}'') = Inr (ascii ''{}'')"
    by (simp_all add: demo_platform_def demo_client_def)
  have cond: "(this_loaded demo_client
        \<or> sdk_load demo_platform (this_agentId demo_client) = Inr True)
      \<and> (Some (ascii ''{}'') = None
         \<or> (\<exists>b t. Some (ascii ''{}'') = Some b \<and> JSON_stringify demo_platform b = Inr t))"
    using pre by simp
  note first = request_generates_ts_and_nonce[OF demo_request, unfolded if_P[OF cond]]
  obtain res2 c2 w2 evs2 where r2:
    "request demo_platform (demo_client\<lparr>this_loaded := True\<rparr>)
       (demo_world\<lparr>uuid_count := 1, now_ms := 1700000060999\<rparr>)
       (ascii ''post'') (ascii ''/q'') (None :: jsstring option)
     = ((res2 :: error + jsstring option), c2, w2, evs2)"
    using prod_cases4 by blast
  have e: "toUpperCase demo_platform = ascii_toUpperCase"
    "js_String (1700000060999 div 1000) = ascii ''1700000060''"
    "uuid_source demo_world (Suc (uuid_count demo_world)) = ascii ''uuid-1''"
    "this_agentName demo_client = ascii ''A''"
    by (simp_all add: demo_platform_def demo_world_def demo_client_def demo_uuid1)
       (simp add: js_String_def ascii_def)
  have none: "(None :: jsstring option) = None
      \<or> (\<exists>b t. (None :: jsstring option) = Some b \<and> JSON_stringify demo_platform b = Inr t)"
    by simp
  note second = first[THEN conjunct2, THEN conjunct2, THEN conjunct2, rule_format, OF r2 none,
      unfolded e]
  then obtain h msg2 where
    "buildMb2Message ascii_toUpperCase (Str (ascii ''1700000060'')) (Str (ascii ''uuid-1''))
       (Str (ascii ''A'')) (Str (ascii ''post'')) (Str (ascii ''/q'')) (Str h) = Inr msg2"
    "SdkSign msg2 \<in> set evs2"
    by blast
  with r2 have two: "\<exists>res2 c2 w2 evs2 h msg2.
         request demo_platform (demo_client\<lparr>this_loaded := True\<rparr>)
             (demo_world\<lparr>uuid_count := 1, now_ms := 1700000060999\<rparr>)
             (ascii ''post'') (ascii ''/q'') (None :: jsstring option)
           = ((res2 :: error + jsstring option), c2, w2, evs2)
         \<and> buildMb2Message ascii_toUpperCase (Str (ascii ''1700000060'')) (Str (ascii ''uuid-1''))
             (Str (ascii ''A'')) (Str (ascii ''post'')) (Str (ascii ''/q'')) (Str h) = Inr msg2
         \<and> SdkSign msg2 \<in> set evs2"
    by blast
  have cnt: "uuid_count (demo_world\<lparr>uuid_count := 1\<rparr>) = Suc (uuid_count demo_world)"
    using first by (elim conjE)
  show ?thesis
    by (intro conjI demo_request pre demo_SdkSign cnt two)
qed

text \<open>
  C7. In a request that \<open>request\<close> sends, the \<open>X-MB-Signature-Ts\<close> and
  \<open>X-MB-Signature-Nonce\<close> headers hold the very time stamp and nonce from which the
  signed canonical message was built, and that message is the only one signed in the
  call.
\<close>

theorem request_headers_match_signed_message:
  assumes "request P c w m p bo = (res, c', w', evs)" and "Fetch r \<in> set evs"
  shows "\<exists>t n h msg.
           header r ''X-MB-Signature-Ts'' = Some t
           \<and> header r ''X-MB-Signature-Nonce'' = Some n
           \<and> t = js_String (now_ms w div 1000) \<and> n = uuid_source w (uuid_count w)
           \<and> buildMb2Message (toUpperCase P) (Str t) (Str n) (Str (this_agentName c)) (Str m)
                 (Str p) (Str h) = Inr msg
           \<and> SdkSign msg \<in> set evs
           \<and> (\<forall>msg'. SdkSign msg' \<in> set evs \<longrightarrow> msg' = msg)"
proof -
  from request_Fetch[OF assms] obtain bodyText msg sv where
    b: "buildMb2Message (toUpperCase P) (Str (js_String (now_ms w div 1000)))
                 (Str (uuid_source w (uuid_count w))) (Str (this_agentName c)) (Str m) (Str p)
                 (Str (sha256Base64 P (utf8 bodyText))) = Inr msg"
    and r: "r = \<lparr>req_url = this_baseUrl c @ p, req_method = m,
                    req_headers =
                      [(ascii ''Authorization'', ascii ''Bearer '' @ this_apiKey c),
                       (ascii ''X-MB-Signature'', ToString sv),
                       (ascii ''X-MB-Signature-Alg'', this_signatureAlg c),
                       (ascii ''X-MB-Signature-Ts'', js_String (now_ms w div 1000)),
                       (ascii ''X-MB-Signature-Nonce'', uuid_source w (uuid_count w))]
                      @ (if bo \<noteq> None then [(ascii ''Content-Type'', ascii ''application/json'')]
                         else []),
                    req_body = (if bo = None then None else Some bodyText)\<rparr>"
    and ev: "evs = (if this_loaded c then [] else [SdkLoad (this_agentId c)])
                   @ [SdkSign msg, Fetch r]"
    by force
  have "header r ''X-MB-Signature-Ts'' = Some (js_String (now_ms w div 1000))"
    "header r ''X-MB-Signature-Nonce'' = Some (uuid_source w (uuid_count w))"
    unfolding r header_def by (simp_all add: ascii_def)
  moreover from ev have "SdkSign msg \<in> set evs" "\<forall>msg'. SdkSign msg' \<in> set evs \<longrightarrow> msg' = msg"
    by auto
  ultimately show ?thesis using b by blast
qed

theorem request_headers_match_signed_message_witness:
  "request demo_platform demo_client demo_world (ascii ''post'') (ascii ''/p'') (Some (ascii ''{}''))
     = (Inr (Some (ascii ''{}'')), demo_client\<lparr>this_loaded := True\<rparr>,
        demo_world\<lparr>uuid_count := 1\<rparr>, demo_events)
   \<and> Fetch demo_req \<in> set demo_events
   \<and> header demo_req ''X-MB-Signature-Ts'' = Some (ascii ''1700000000'')
   \<and> header demo_req ''X-MB-Signature-Nonce'' = Some (ascii ''uuid-0'')
   \<and> (\<exists>h. buildMb2Message ascii_toUpperCase (Str (ascii ''1700000000'')) (Str (ascii ''uuid-0''))
             (Str (ascii ''A'')) (Str (ascii ''post'')) (Str (ascii ''/p'')) (Str h) = Inr demo_msg)"
proof -
  from request_headers_match_signed_message[OF demo_request demo_Fetch]
  have "header demo_req ''X-MB-Signature-Ts'' = Some (ascii ''1700000000'')
    \<and> header demo_req ''X-MB-Signature-Nonce'' = Some (ascii ''uuid-0'')
    \<and> (\<exists>h msg. buildMb2Message ascii_toUpperCase (Str (ascii ''1700000000'')) (Str (ascii ''uuid-0''))
             (Str (ascii ''A'')) (Str (ascii ''post'')) (Str (ascii ''/p'')) (Str h) = Inr msg
          \<and> SdkSign msg \<in> set demo_events)"
    by (auto simp: demo_platform_def demo_client_def demo_world_def demo_ts demo_uuid0)
  then show ?thesis
    using demo_request demo_Fetch by (auto simp: demo_events_def)
qed

text \<open>
  C8. When the identity is not loaded and \<open>sdk.load\<close> does not return true (it returns
  false or throws), or when \<open>sdk.sign\<close> throws, \<open>request\<close> ends with an error and has
  issued no HTTP request.
\<close>

theorem request_aborts_when_signing_fails:
  assumes "request P c w m p bo = (res, c', w', evs)"
    and "(\<not> this_loaded c \<and> sdk_load P (this_agentId c) = Inr False)
         \<or> (\<not> this_loaded c \<and> (\<exists>e. sdk_load P (this_agentId c) = Inl e))
         \<or> (\<exists>msg e. SdkSign msg \<in> set evs \<and> sdk_sign P msg = Inl e)"
  shows "(\<exists>e. res = Inl e) \<and> (\<forall>r. Fetch r \<notin> set evs)"
proof (rule request_no_Fetch[OF assms(1)])
  from assms(2)
  show "(\<not> this_loaded c \<and> sdk_load P (this_agentId c) \<noteq> Inr True)
         \<or> (\<exists>msg e. SdkSign msg \<in> set evs \<and> sdk_sign P msg = Inl e)"
    by auto
qed

theorem request_aborts_when_signing_fails_witness:
  "request demo_platform (demo_client\<lparr>this_agentId := ascii ''agent-2''\<rparr>) demo_world
       (ascii ''post'') (ascii ''/p'') (Some (ascii ''{}''))
     = (Inl (CredentialsNotFound (ascii ''agent-2'')),
        demo_client\<lparr>this_agentId := ascii ''agent-2''\<rparr>, demo_world,
        [SdkLoad (ascii ''agent-2'')])
   \<and> \<not> this_loaded (demo_client\<lparr>this_agentId := ascii ''agent-2''\<rparr>)
   \<and> sdk_load demo_platform (this_agentId (demo_client\<lparr>this_agentId := ascii ''agent-2''\<rparr>))
       = Inr False
   \<and> (\<forall>r. Fetch r \<notin> set [SdkLoad (ascii ''agent-2'')])"
proof -
  have h: "\<not> this_loaded (demo_client\<lparr>this_agentId := ascii ''agent-2''\<rparr>)
     \<and> sdk_load demo_platform (this_agentId (demo_client\<lparr>this_agentId := ascii ''agent-2''\<rparr>))
       = Inr False"
    by (simp add: demo_platform_def demo_client_def ascii_def)
  from request_aborts_when_signing_fails[OF demo_request_unknown_identity] h
  have "\<forall>r. Fetch r \<notin> set [SdkLoad (ascii ''agent-2'')]"
    by blast
  with demo_request_unknown_identity h show ?thesis by blast
qed

text \<open>
  C10. The constructor throws when any of \<open>baseUrl\<close>, \<open>apiKey\<close>, \<open>agentId\<close> and
  \<open>agentName\<close> is empty or absent. Hence the agent name of every client the class
  produces is non-empty, and so is the agent-name field of every canonical message that
  \<open>request\<close> builds for such a client.
\<close>

theorem constructor_guards_agent_name:
  "(falsy baseUrl \<or> falsy apiKey \<or> falsy agentId \<or> falsy agentName
      \<longrightarrow> new_TrustbookEsignClient P baseUrl apiKey agentId agentName signatureAlg
            = Inl MissingClientOptions)
   \<and> (constructed P c \<longrightarrow> request P c w m p bo = (res, c', w', evs) \<longrightarrow> SdkSign msg \<in> set evs
      \<longrightarrow> this_agentName c \<noteq> []
          \<and> (\<exists>t n h. buildMb2Message (toUpperCase P) (Str t) (Str n) (Str (this_agentName c))
                         (Str m) (Str p) (Str h) = Inr msg))"
proof (intro conjI impI)
  assume "falsy baseUrl \<or> falsy apiKey \<or> falsy agentId \<or> falsy agentName"
  then show "new_TrustbookEsignClient P baseUrl apiKey agentId agentName signatureAlg
      = Inl MissingClientOptions"
    by (simp add: new_TrustbookEsignClient_def)
next
  assume "constructed P c"
  then show "this_agentName c \<noteq> []" by (rule constructed_agentName)
next
  assume "request P c w m p bo = (res, c', w', evs)" and "SdkSign msg \<in> set evs"
  from request_SdkSign[OF this]
  show "\<exists>t n h. buildMb2Message (toUpperCase P) (Str t) (Str n) (Str (this_agentName c))
                         (Str m) (Str p) (Str h) = Inr msg"
    by blast
qed

theorem constructor_guards_agent_name_witness:
  "falsy (Str [])
   \<and> new_TrustbookEsignClient demo_platform (Str (ascii ''http://localhost:3456/''))
       (Str (ascii ''mb_k'')) (Str (ascii ''agent-1'')) (Str []) Undefined
     = Inl MissingClientOptions
   \<and> constructed demo_platform demo_client
   \<and> request demo_platform demo_client demo_world (ascii ''post'') (ascii ''/p'')
       (Some (ascii ''{}''))
     = (Inr (Some (ascii ''{}'')), demo_client\<lparr>this_loaded := True\<rparr>,
        demo_world\<lparr>uuid_count := 1\<rparr>, demo_events)
   \<and> SdkSign demo_msg \<in> set demo_events
   \<and> this_agentName demo_client \<noteq> []
   \<and> (\<exists>t n h. buildMb2Message (toUpperCase demo_platform) (Str t) (Str n)
                  (Str (this_agentName demo_client)) (Str (ascii ''post'')) (Str (ascii ''/p''))
                  (Str h) = Inr demo_msg)"
proof -
  have f: "falsy (Str [])" by simp
  note inst = constructor_guards_agent_name[of "Str (ascii ''http://localhost:3456/'')"
      "Str (ascii ''mb_k'')" "Str (ascii ''agent-1'')" "Str []" demo_platform Undefined
      demo_client demo_world "ascii ''post''" "ascii ''/p''" "Some (ascii ''{}'')"
      "Inr (Some (ascii ''{}''))" "demo_client\<lparr>this_loaded := True\<rparr>"
      "demo_world\<lparr>uuid_count := 1\<rparr>" demo_events demo_msg]
  from inst f demo_constructed demo_request demo_SdkSign show ?thesis
    by blast
qed

text \<open>
  C9 (as amended). Evaluating the module reaches \<open>module.exports\<close> unless the file is
  run as the main module with no command or with \<open>help\<close>, \<open>--help\<close> or \<open>-h\<close>, in which
  case \<open>runCli\<close> prints the usage and ends the process with status 0 first. Whenever
  \<open>module.exports\<close> is reached, and no global named \<open>buildMb1Message\<close> exists, the
  evaluation throws a \<open>ReferenceError\<close> for that identifier: the file binds
  \<open>buildMb2Message\<close> only. The module never completes with its exports.
\<close>

theorem evaluate_module_outcome:
  assumes "''buildMb1Message'' \<notin> globals"
  shows "evaluate_module globals is_main argv2 =
           (if is_main \<and> (falsy argv2 \<or> argv2 = Str (ascii ''help'')
                          \<or> argv2 = Str (ascii ''--help'') \<or> argv2 = Str (ascii ''-h''))
            then Exits 0
            else Throws (ReferenceError ''buildMb1Message''))"
proof -
  have lit: "object_literal globals [''TrustbookEsignClient'', ''buildMb1Message'', ''sha256Base64'']
      = Inl (ReferenceError ''buildMb1Message'')"
    using assms by (simp add: resolve_identifier_def module_bindings_def)
  have ex: "runCli_exits argv2 =
      (if falsy argv2 \<or> argv2 = Str (ascii ''help'') \<or> argv2 = Str (ascii ''--help'')
          \<or> argv2 = Str (ascii ''-h'')
       then Some 0 else None)"
    by (cases argv2) (auto simp: runCli_exits_def Let_def)
  show ?thesis
    unfolding evaluate_module_def lit ex by simp
qed

theorem evaluate_module_outcome_witness:
  "''buildMb1Message'' \<notin> ({''process'', ''console'', ''fetch'', ''Buffer''} :: string set)
   \<and> evaluate_module {''process'', ''console'', ''fetch'', ''Buffer''} False Undefined
       = Throws (ReferenceError ''buildMb1Message'')
   \<and> evaluate_module {''process'', ''console'', ''fetch'', ''Buffer''} True (Str (ascii ''post''))
       = Throws (ReferenceError ''buildMb1Message'')"
proof -
  have g: "''buildMb1Message'' \<notin> ({''process'', ''console'', ''fetch'', ''Buffer''} :: string set)"
    by simp
  from evaluate_module_outcome[OF g, of False Undefined]
    evaluate_module_outcome[OF g, of True "Str (ascii ''post'')"] g
  show ?thesis by (simp add: ascii_def)
qed

text \<open>
  C9 as stated fails: run as \<open>node esign_trustbook_adapter.js --help\<close>, the module prints
  the usage and exits with status 0; no \<open>ReferenceError\<close> is thrown.
\<close>

theorem evaluate_module_help_exits:
  "evaluate_module {} True (Str (ascii ''--help'')) = Exits 0"
  by (simp add: evaluate_module_def runCli_exits_def Let_def)



end
